theory Spec2Isabelle
  imports Complex_Main "HOL-Library.Sublist"
begin

section \<open>Python values shared by the three scripts\<close>

text \<open>
  The scripts are \<^verbatim>\<open>ami_sweeper.py\<close>, \<^verbatim>\<open>fabfile.py\<close> and \<^verbatim>\<open>update_ami.py\<close>.
  Every call to AWS, to the remote host or to the local disk is an input of the model:
  what the service answers is a parameter, what the script does with the answer is the
  definition. A raised exception is the \<open>Inl\<close> branch of a sum.
\<close>

datatype exn =
    SystemExit
  | Abort string
  | MyTimeoutError
  | UnboundLocalError
  | ValueError
  | OSError
  | ClientError string
  | OtherException string

text \<open>
  \<open>SystemExit\<close> is \<^verbatim>\<open>raise SystemExit\<close> (with or without an argument), \<open>Abort msg\<close> is
  fabric's \<^verbatim>\<open>abort(msg)\<close>, \<open>ClientError code\<close> is botocore's exception with
  \<^verbatim>\<open>e.response['Error']['Code'] = code\<close>.
\<close>

text \<open>Python's \<^verbatim>\<open>sub in s\<close> on strings: \<open>sub\<close> occurs in \<open>s\<close> as a contiguous run.\<close>

fun py_in :: "string \<Rightarrow> string \<Rightarrow> bool" where
  "py_in sub [] = (sub = [])"
| "py_in sub (c # cs) = (prefix sub (c # cs) \<or> py_in sub cs)"

section \<open>ami\_sweeper.py: the snapshot sweep\<close>

text \<open>
  A snapshot as the script reads it: \<^verbatim>\<open>s.id\<close>, \<^verbatim>\<open>s.owner_id\<close> and \<^verbatim>\<open>s.tags\<close>, a list of
  \<^verbatim>\<open>{'Key': k, 'Value': v}\<close>. boto3 gives \<^verbatim>\<open>None\<close> for a snapshot without tags; \<^verbatim>\<open>None\<close>
  and the empty list are both falsy, and both are \<open>[]\<close> here.
\<close>

record snapshot =
  snapshot_id :: string
  owner_id :: string
  tags :: "(string \<times> string) list"

text \<open>
  The tag loop of \<^verbatim>\<open>test_protected\<close>: the first tag with key \<^verbatim>\<open>Name\<close> decides; a loop
  that ends without one falls off the function, which returns Python's \<^verbatim>\<open>None\<close>
  (\<open>None\<close> here; \<open>Some b\<close> is \<^verbatim>\<open>return(b)\<close>).
\<close>

fun test_protected_tags :: "(string \<times> string) list \<Rightarrow> string \<Rightarrow> bool option" where
  "test_protected_tags [] string = None"
| "test_protected_tags ((key, val) # others) string =
     (if key = ''Name''
      then (if py_in string val then Some True else Some False)
      else test_protected_tags others string)"

definition test_protected :: "snapshot \<Rightarrow> string \<Rightarrow> bool option" where
  "test_protected snapshot string =
     (if tags snapshot \<noteq> [] then test_protected_tags (tags snapshot) string
      else Some False)"

text \<open>\<open>current_identity\<close> is the account that \<^verbatim>\<open>get_caller_identity\<close> answers.\<close>

definition test_ownership :: "string \<Rightarrow> snapshot \<Rightarrow> bool" where
  "test_ownership current_identity snapshot =
     (if owner_id snapshot = current_identity then True else False)"

text \<open>
  The loop over \<^verbatim>\<open>list_snapshots\<close> inside \<^verbatim>\<open>delete_snapshots\<close>. \<open>delete i\<close> is what
  \<^verbatim>\<open>s.delete(DryRun=False)\<close> does for the snapshot with id \<open>i\<close>: \<open>None\<close> when it returns,
  \<open>Some e\<close> when it raises \<open>e\<close>. Only \<^verbatim>\<open>ClientError\<close> is caught; code
  \<^verbatim>\<open>InvalidSnapshot.InUse\<close> retains the snapshot, any other code raises \<^verbatim>\<open>SystemExit\<close>,
  and an exception of another class leaves the function as it is. The pair is
  \<^verbatim>\<open>(deleted_snapshots, retained_snapshots)\<close>.
\<close>

fun process_list_snapshots ::
  "string \<Rightarrow> string \<Rightarrow> (string \<Rightarrow> exn option) \<Rightarrow> snapshot list \<Rightarrow>
   string list \<times> string list \<Rightarrow> exn + (string list \<times> string list)" where
  "process_list_snapshots me ignore_string delete [] (deleted, retained) =
     Inr (deleted, retained)"
| "process_list_snapshots me ignore_string delete (s # rest) (deleted, retained) =
     (let test_protected_result = test_protected s ignore_string;
          test_ownership_result = test_ownership me s
      in if test_protected_result = Some True \<or> test_ownership_result = False
         then process_list_snapshots me ignore_string delete rest
                (deleted, retained @ [snapshot_id s])
         else (case delete (snapshot_id s) of
                 None \<Rightarrow>
                   process_list_snapshots me ignore_string delete rest
                     (deleted @ [snapshot_id s], retained)
               | Some (ClientError code) \<Rightarrow>
                   if code = ''InvalidSnapshot.InUse''
                   then process_list_snapshots me ignore_string delete rest
                          (deleted, retained @ [snapshot_id s])
                   else Inl SystemExit
               | Some e \<Rightarrow> Inl e))"

text \<open>
  The paging of \<^verbatim>\<open>delete_snapshots\<close>. \<open>first_page\<close> is the answer to the first
  \<^verbatim>\<open>describe_snapshots\<close>, \<open>next_pages\<close> the answers to the calls made with a
  \<^verbatim>\<open>NextToken\<close>: an answer carries a token exactly when another page follows. The loop
  over \<^verbatim>\<open>list_snapshots\<close> stands inside \<^verbatim>\<open>while 'NextToken' in response\<close>, after the new
  page has been appended; the list is emptied at the end of each round. (The sleep of
  \<^verbatim>\<open>wait_time\<close> seconds between rounds is not modelled.)
\<close>

fun delete_snapshots_pages ::
  "string \<Rightarrow> string \<Rightarrow> (string \<Rightarrow> exn option) \<Rightarrow> snapshot list list \<Rightarrow>
   snapshot list \<Rightarrow> string list \<times> string list \<Rightarrow> exn + (string list \<times> string list)" where
  "delete_snapshots_pages me ignore_string delete [] list_snapshots acc = Inr acc"
| "delete_snapshots_pages me ignore_string delete (page # later) list_snapshots acc =
     (case process_list_snapshots me ignore_string delete (list_snapshots @ page) acc of
        Inl e \<Rightarrow> Inl e
      | Inr acc' \<Rightarrow> delete_snapshots_pages me ignore_string delete later [] acc')"

definition delete_snapshots ::
  "string \<Rightarrow> string \<Rightarrow> (string \<Rightarrow> exn option) \<Rightarrow> snapshot list \<Rightarrow> snapshot list list \<Rightarrow>
   exn + (string list \<times> string list)" where
  "delete_snapshots me ignore_string delete first_page next_pages =
     delete_snapshots_pages me ignore_string delete next_pages first_page ([], [])"

text \<open>The words of the decision rule: the Name tag, protection, and a delete that goes through.\<close>

definition name_tag :: "snapshot \<Rightarrow> string option" where
  "name_tag s = map_of (tags s) ''Name''"

definition protected :: "snapshot \<Rightarrow> string \<Rightarrow> bool" where
  "protected s marker = (case name_tag s of None \<Rightarrow> False | Some v \<Rightarrow> py_in marker v)"

definition owned :: "string \<Rightarrow> snapshot \<Rightarrow> bool" where
  "owned me s = (owner_id s = me)"

definition in_use_error :: exn where
  "in_use_error = ClientError ''InvalidSnapshot.InUse''"

text \<open>A snapshot whose delete request is made and fails for a reason other than being in use.\<close>

definition fatal :: "string \<Rightarrow> string \<Rightarrow> (string \<Rightarrow> exn option) \<Rightarrow> snapshot \<Rightarrow> bool" where
  "fatal me marker delete s =
     (owned me s \<and> \<not> protected s marker \<and>
      delete (snapshot_id s) \<noteq> None \<and> delete (snapshot_id s) \<noteq> Some in_use_error)"


section \<open>Images and instances\<close>

text \<open>
  An image as the scripts read it: \<^verbatim>\<open>image.id\<close>, \<^verbatim>\<open>image.name\<close>, its owner account and, in
  a describe answer, \<^verbatim>\<open>image['State']\<close>. An instance: \<^verbatim>\<open>instance.id\<close>, its owner account,
  \<^verbatim>\<open>instance.tags\<close> (\<open>[]\<close> also for \<^verbatim>\<open>None\<close>) and \<^verbatim>\<open>instance.state['Name']\<close>. The
  records are \<open>ami\<close> and \<open>ec2_instance\<close>, and the loop variables \<open>img\<close> and \<open>inst\<close>,
  because \<open>image\<close> and \<open>instance\<close> are names of Isabelle's.
\<close>

record ami =
  image_id :: string
  image_name :: string
  image_owner :: string
  image_state :: string

record ec2_instance =
  instance_id :: string
  instance_owner :: string
  instance_tags :: "(string \<times> string) list"
  instance_state :: string

text \<open>
  \<^verbatim>\<open>images.filter(Filters=[{'Name': 'owner-id', 'Values': [owner_id]}]).all()\<close> and the same
  for instances: of what is visible to the account, AWS lists what the account owns, in
  its own order.
\<close>

definition images_filter :: "string \<Rightarrow> ami list \<Rightarrow> ami list" where
  "images_filter owner visible = filter (\<lambda>img. image_owner img = owner) visible"

definition instances_filter :: "string \<Rightarrow> ec2_instance list \<Rightarrow> ec2_instance list" where
  "instances_filter owner visible =
     filter (\<lambda>inst. instance_owner inst = owner) visible"

section \<open>ami\_sweeper.py: the image sweep\<close>





section \<open>The locators of fabfile.py and update\_ami.py\<close>

text \<open>\<^verbatim>\<open>find_ami_id\<close> of fabfile.py: the loop over the account's images, then \<^verbatim>\<open>abort\<close>.\<close>

fun fab_find_ami_id_loop :: "string \<Rightarrow> ami list \<Rightarrow> exn + string" where
  "fab_find_ami_id_loop search_name [] = Inl (Abort (''Could not find AMI '' @ search_name))"
| "fab_find_ami_id_loop search_name (img # rest) =
     (if search_name = image_name img then Inr (image_id img)
      else fab_find_ami_id_loop search_name rest)"

definition fab_find_ami_id :: "string \<Rightarrow> ami list \<Rightarrow> string \<Rightarrow> exn + string" where
  "fab_find_ami_id owner visible search_name =
     fab_find_ami_id_loop search_name (images_filter owner visible)"

text \<open>\<^verbatim>\<open>find_ami_id\<close> of update\_ami.py: the same loop, then \<^verbatim>\<open>raise SystemExit\<close>.\<close>

fun upd_find_ami_id_loop :: "string \<Rightarrow> ami list \<Rightarrow> exn + string" where
  "upd_find_ami_id_loop search_name [] = Inl SystemExit"
| "upd_find_ami_id_loop search_name (img # rest) =
     (if search_name = image_name img then Inr (image_id img)
      else upd_find_ami_id_loop search_name rest)"

definition upd_find_ami_id :: "string \<Rightarrow> ami list \<Rightarrow> string \<Rightarrow> exn + string" where
  "upd_find_ami_id owner visible search_name =
     upd_find_ami_id_loop search_name (images_filter owner visible)"

text \<open>
  \<^verbatim>\<open>find_instance_id\<close> of fabfile.py. The first pair of loops appends an instance to
  \<^verbatim>\<open>candidates\<close> once for every tag \<^verbatim>\<open>Name\<close> whose value is the name searched; the
  second loop returns the first candidate whose state is \<^verbatim>\<open>running\<close>.
\<close>

fun fab_candidate_tags ::
  "ec2_instance \<Rightarrow> (string \<times> string) list \<Rightarrow> string \<Rightarrow> ec2_instance list \<Rightarrow> ec2_instance list" where
  "fab_candidate_tags inst [] search_name candidates = candidates"
| "fab_candidate_tags inst ((key, val) # others) search_name candidates =
     (if key = ''Name''
      then (if val = search_name
            then fab_candidate_tags inst others search_name (candidates @ [inst])
            else fab_candidate_tags inst others search_name candidates)
      else fab_candidate_tags inst others search_name candidates)"

fun fab_candidates :: "ec2_instance list \<Rightarrow> string \<Rightarrow> ec2_instance list \<Rightarrow> ec2_instance list" where
  "fab_candidates [] search_name candidates = candidates"
| "fab_candidates (inst # rest) search_name candidates =
     (if instance_tags inst \<noteq> []
      then fab_candidates rest search_name
             (fab_candidate_tags inst (instance_tags inst) search_name candidates)
      else fab_candidates rest search_name candidates)"

fun fab_select_running :: "string \<Rightarrow> ec2_instance list \<Rightarrow> exn + string" where
  "fab_select_running search_name [] =
     Inl (Abort (''Could not find a running instance named '' @ search_name))"
| "fab_select_running search_name (inst # rest) =
     (if instance_state inst = ''running'' then Inr (instance_id inst)
      else fab_select_running search_name rest)"

definition fab_find_instance_id :: "string \<Rightarrow> ec2_instance list \<Rightarrow> string \<Rightarrow> exn + string" where
  "fab_find_instance_id owner visible search_name =
     fab_select_running search_name
       (fab_candidates (instances_filter owner visible) search_name [])"

text \<open>
  \<^verbatim>\<open>find_instance_id\<close> of update\_ami.py returns from inside the tag loop, at the first tag
  \<^verbatim>\<open>Name\<close> with the value searched, and reads no state.
\<close>

fun upd_name_matches :: "(string \<times> string) list \<Rightarrow> string \<Rightarrow> bool" where
  "upd_name_matches [] search_name = False"
| "upd_name_matches ((key, val) # others) search_name =
     (if key = ''Name''
      then (if val = search_name then True else upd_name_matches others search_name)
      else upd_name_matches others search_name)"

fun upd_find_instance_id_loop :: "string \<Rightarrow> ec2_instance list \<Rightarrow> exn + string" where
  "upd_find_instance_id_loop search_name [] = Inl SystemExit"
| "upd_find_instance_id_loop search_name (inst # rest) =
     (if instance_tags inst \<noteq> [] \<and> upd_name_matches (instance_tags inst) search_name
      then Inr (instance_id inst)
      else upd_find_instance_id_loop search_name rest)"

definition upd_find_instance_id :: "string \<Rightarrow> ec2_instance list \<Rightarrow> string \<Rightarrow> exn + string" where
  "upd_find_instance_id owner visible search_name =
     upd_find_instance_id_loop search_name (instances_filter owner visible)"

text \<open>An instance carries the name: one of its tags is \<^verbatim>\<open>Name\<close> with exactly that value.\<close>

definition named :: "string \<Rightarrow> ec2_instance \<Rightarrow> bool" where
  "named search_name inst = ((''Name'', search_name) \<in> set (instance_tags inst))"

section \<open>The polling loops of fabfile.py and update\_ami.py\<close>

text \<open>
  A \<^verbatim>\<open>while True\<close> loop asks \<^verbatim>\<open>describe_images\<close> once per round. \<open>describe_images k\<close> is
  \<^verbatim>\<open>response['Images']\<close> of the call of round \<open>k\<close> (rounds count from 0). \<open>timer\<close> is the
  loop's variable, \<open>slept\<close> the arguments of the \<^verbatim>\<open>sleep\<close> calls made so far; a result
  pairs what the function returns or raises with the sleeps made. \<^verbatim>\<open>sleep\<close> of a
  negative number raises (\<^verbatim>\<open>ValueError\<close> in Python 3). A loop that never leaves has the
  value \<open>None\<close>.
\<close>




text \<open>
  One round of \<^verbatim>\<open>wait_copy\<close> up to its timeout test: it returns, or \<^verbatim>\<open>sleep\<close> raises, or
  it goes on to the test with the timer and the sleeps it now has. An answer with two
  images or more takes neither branch of the \<^verbatim>\<open>if\<close>/\<^verbatim>\<open>elif\<close> and changes nothing.
\<close>

datatype round = Return int | Raise exn | Continue int "int list"

definition wait_copy_round :: "ami list \<Rightarrow> int \<Rightarrow> int \<Rightarrow> int list \<Rightarrow> round" where
  "wait_copy_round images runinterval timer slept =
     (if length images = 0
      then (if runinterval < 0 then Raise ValueError
            else Continue (timer + runinterval) (slept @ [runinterval]))
      else if length images = 1
      then (if image_state (hd images) \<noteq> ''available''
            then (if runinterval < 0 then Raise ValueError
                  else Continue (timer + runinterval) (slept @ [runinterval]))
            else Return 0)
      else Continue timer slept)"

partial_function (option) wait_copy_loop ::
  "(nat \<Rightarrow> ami list) \<Rightarrow> int \<Rightarrow> int \<Rightarrow> nat \<Rightarrow> int \<Rightarrow> int list \<Rightarrow>
   ((exn + int) \<times> int list) option" where
  "wait_copy_loop describe_images runinterval timeout k timer slept =
     (case wait_copy_round (describe_images k) runinterval timer slept of
        Return v \<Rightarrow> Some (Inr v, slept)
      | Raise e \<Rightarrow> Some (Inl e, slept)
      | Continue timer' slept' \<Rightarrow>
          if timer' \<ge> timeout then Some (Inl (Abort ''wait_copy() timed out.''), slept')
          else wait_copy_loop describe_images runinterval timeout (k + 1) timer' slept')"

declare wait_copy_loop.simps [code]

definition wait_copy ::
  "(nat \<Rightarrow> ami list) \<Rightarrow> int \<Rightarrow> int \<Rightarrow> ((exn + int) \<times> int list) option" where
  "wait_copy describe_images runinterval timeout =
     wait_copy_loop describe_images runinterval timeout 0 0 []"

section \<open>update\_ami.py: the remote steps of main\<close>

text \<open>
  What the script does to the outside, in order: a command dispatched to the remote host,
  a call of the AWS API, a message given to \<^verbatim>\<open>logger.error\<close>.
\<close>

datatype event = Ran string | Called string | Logged string

text \<open>
  The remote host. \<open>connect action\<close> tells whether \<^verbatim>\<open>sshclient.connect\<close> succeeds in the
  step with that action (otherwise it raises \<^verbatim>\<open>SSHException\<close>); \<open>exec_command c\<close> is what
  \<^verbatim>\<open>sshclient.exec_command(c)\<close> does: it raises, or the command runs and leaves its lines
  of stdout and stderr. Lines on stderr are logged at level info and change nothing else.
\<close>

datatype exec_result = ExecRaises | ExecDone "string list" "string list"

record host =
  hostname :: string
  connect :: "string \<Rightarrow> bool"
  exec_command :: "string \<Rightarrow> exec_result"

text \<open>
  A step returns \<open>(None, trace)\<close> when it returns and \<open>(Some e, trace)\<close> when it raises
  \<open>e\<close>; \<open>and_then\<close> is the semicolon of Python: the next statement runs only when the
  one before it has returned.
\<close>

type_synonym step = "exn option \<times> event list"

fun and_then :: "step \<Rightarrow> (event list \<Rightarrow> step) \<Rightarrow> step" where
  "and_then (None, trace) next_step = next_step trace"
| "and_then (Some e, trace) next_step = (Some e, trace)"

text \<open>\<^verbatim>\<open>start_or_stop_service\<close>, called with action \<^verbatim>\<open>stop\<close> or \<^verbatim>\<open>start\<close>.\<close>

definition start_or_stop_service :: "host \<Rightarrow> string \<Rightarrow> string \<Rightarrow> event list \<Rightarrow> step" where
  "start_or_stop_service h action service trace =
     (if \<not> connect h action
      then (Some SystemExit,
            trace @ [Logged (''SSH connection to '' @ hostname h @ '' failed.'')])
      else (let ssh_command = ''sudo service '' @ service @ '' '' @ action
            in case exec_command h ssh_command of
                 ExecRaises \<Rightarrow>
                   (Some SystemExit,
                    trace @ [Logged (''Remote command '' @ ssh_command @ '' failed.'')])
               | ExecDone stdout stderr \<Rightarrow> (None, trace @ [Ran ssh_command])))"

text \<open>
  \<^verbatim>\<open>freeze_or_unfreeze_filesystems\<close>, called with action \<^verbatim>\<open>freeze\<close> or \<^verbatim>\<open>unfreeze\<close>: one
  connection, then one command for each filesystem.
\<close>

fun fsfreeze_loop :: "host \<Rightarrow> string \<Rightarrow> string list \<Rightarrow> event list \<Rightarrow> step" where
  "fsfreeze_loop h action [] trace = (None, trace)"
| "fsfreeze_loop h action (fs # rest) trace =
     (let ssh_command = ''sudo fsfreeze --'' @ action @ '' '' @ fs
      in case exec_command h ssh_command of
           ExecRaises \<Rightarrow>
                   (Some SystemExit,
                    trace @ [Logged (''Remote command '' @ ssh_command @ '' failed.'')])
         | ExecDone stdout stderr \<Rightarrow> fsfreeze_loop h action rest (trace @ [Ran ssh_command]))"

definition freeze_or_unfreeze_filesystems ::
  "host \<Rightarrow> string list \<Rightarrow> string \<Rightarrow> event list \<Rightarrow> step" where
  "freeze_or_unfreeze_filesystems h filesystems action trace =
     (if \<not> connect h action
      then (Some SystemExit,
            trace @ [Logged (''SSH connection to '' @ hostname h @ '' failed.'')])
      else fsfreeze_loop h action filesystems trace)"

text \<open>
  \<^verbatim>\<open>create_ami\<close> of update\_ami.py. \<open>create_image\<close> is what the API call does: \<open>Inr i\<close> is
  an answer with \<^verbatim>\<open>ImageId\<close> \<open>i\<close>, \<open>Inl e\<close> the exception \<open>e\<close>. The local variable
  \<^verbatim>\<open>response\<close> is bound only when the call returns; the \<^verbatim>\<open>except\<close> clause logs and falls
  through to the last statement, which reads \<^verbatim>\<open>response['ImageId']\<close>, and reading an
  unbound local raises \<^verbatim>\<open>UnboundLocalError\<close>. The decorator \<^verbatim>\<open>AWSRetry.backoff\<close> (of the
  awsretry package) calls the function again only for a \<^verbatim>\<open>ClientError\<close> with a code it
  knows and raises every other exception on; \<^verbatim>\<open>UnboundLocalError\<close> is none of them.
\<close>

definition upd_create_ami :: "exn + string \<Rightarrow> event list \<Rightarrow> step" where
  "upd_create_ami create_image trace =
     (let (response, trace') =
            (case create_image of
               Inr answer \<Rightarrow> (Some answer, trace @ [Called ''create_image''])
             | Inl e \<Rightarrow> (None, trace @ [Called ''create_image'', Logged ''Failed to create AMI.'']))
      in case response of
           None \<Rightarrow> (Some UnboundLocalError, trace')
         | Some answer \<Rightarrow> (None, trace'))"

text \<open>
  The last five statements of \<^verbatim>\<open>main\<close>: stop the service, freeze the filesystems,
  create the image, unfreeze the filesystems, start the service.
\<close>

definition main_remote_steps :: "host \<Rightarrow> string list \<Rightarrow> exn + string \<Rightarrow> step" where
  "main_remote_steps h filesystems create_image =
     and_then (start_or_stop_service h ''stop'' ''postgresql'' []) (\<lambda>trace.
     and_then (freeze_or_unfreeze_filesystems h filesystems ''freeze'' trace) (\<lambda>trace.
     and_then (upd_create_ami create_image trace) (\<lambda>trace.
     and_then (freeze_or_unfreeze_filesystems h filesystems ''unfreeze'' trace) (\<lambda>trace.
     start_or_stop_service h ''start'' ''postgresql'' trace))))"

text \<open>A host that accepts every connection and runs every command without output.\<close>

definition obedient_host :: host where
  "obedient_host =
     \<lparr>hostname = ''db1.example.org'', connect = (\<lambda>action. True),
      exec_command = (\<lambda>c. ExecDone [] [])\<rparr>"

section \<open>fabfile.py: the continuity files\<close>

text \<open>
  The tree under \<^verbatim>\<open>/tmp\<close> as \<^verbatim>\<open>os.walk('/tmp')\<close> goes through it: one entry for each
  directory, in the order of the walk, with the directory's path and its files, each a
  name and its contents. A directory is a subdirectory of the one its path is in.
\<close>

type_synonym tmp_tree = "(string \<times> (string \<times> string) list) list"



















text \<open>The names of all files in the tree.\<close>

definition file_names :: "tmp_tree \<Rightarrow> string list" where
  "file_names tree = concat (map (\<lambda>(dir, files). map fst files) tree)"

section \<open>Example inputs of the snapshot sweep\<close>

text \<open>
  The spec's scenario: \<^verbatim>\<open>snap-1\<close> owned and tagged \<^verbatim>\<open>Name=nightly_BACKUP\<close>, \<^verbatim>\<open>snap-2\<close> owned
  and tagged \<^verbatim>\<open>Name=nightly\<close>, \<^verbatim>\<open>snap-3\<close> of another account; with them \<^verbatim>\<open>snap-4\<close>, owned,
  untagged and attached, and \<^verbatim>\<open>snap-5\<close>, owned, with tags but no Name tag.
\<close>

definition account :: string where
  "account = ''111122223333''"

definition snap_backup :: snapshot where
  "snap_backup =
     \<lparr>snapshot_id = ''snap-1'', owner_id = account, tags = [(''Name'', ''nightly_BACKUP'')]\<rparr>"

definition snap_nightly :: snapshot where
  "snap_nightly =
     \<lparr>snapshot_id = ''snap-2'', owner_id = account, tags = [(''Name'', ''nightly'')]\<rparr>"

definition snap_foreign :: snapshot where
  "snap_foreign =
     \<lparr>snapshot_id = ''snap-3'', owner_id = ''999999999999'', tags = [(''Name'', ''nightly'')]\<rparr>"

definition snap_busy :: snapshot where
  "snap_busy = \<lparr>snapshot_id = ''snap-4'', owner_id = account, tags = []\<rparr>"

definition snap_env :: snapshot where
  "snap_env = \<lparr>snapshot_id = ''snap-5'', owner_id = account, tags = [(''Env'', ''dev'')]\<rparr>"

text \<open>AWS answers the delete of \<^verbatim>\<open>snap-4\<close> with "in use", or with a refusal of another kind.\<close>

definition busy_delete :: "string \<Rightarrow> exn option" where
  "busy_delete i = (if i = ''snap-4'' then Some in_use_error else None)"

definition refused_delete :: "string \<Rightarrow> exn option" where
  "refused_delete i =
     (if i = ''snap-4'' then Some (ClientError ''UnauthorizedOperation'') else None)"

lemmas sweep_example_defs = account_def snap_backup_def snap_nightly_def snap_foreign_def
  snap_busy_def snap_env_def busy_delete_def refused_delete_def

section \<open>Example images and instances\<close>

definition ami_current :: ami where
  "ami_current = \<lparr>image_id = ''ami-1'', image_name = ''web_CURRENT'',
     image_owner = account, image_state = ''available''\<rparr>"

definition ami_tmp :: ami where
  "ami_tmp = \<lparr>image_id = ''ami-2'', image_name = ''web_TMP'',
     image_owner = account, image_state = ''available''\<rparr>"

definition ami_tmp_old :: ami where
  "ami_tmp_old = \<lparr>image_id = ''ami-3'', image_name = ''db_TMP'',
     image_owner = account, image_state = ''available''\<rparr>"

definition ami_foreign :: ami where
  "ami_foreign = \<lparr>image_id = ''ami-4'', image_name = ''web_TMP'',
     image_owner = ''999999999999'', image_state = ''available''\<rparr>"

text \<open>AWS answers the deregistration of \<^verbatim>\<open>ami-3\<close> with status 503, every other one with 200.\<close>

definition unavailable_deregister :: "string \<Rightarrow> exn + int" where
  "unavailable_deregister i = (if i = ''ami-3'' then Inr 503 else Inr 200)"

definition web_stopped :: ec2_instance where
  "web_stopped = \<lparr>instance_id = ''i-1'', instance_owner = account,
     instance_tags = [(''Env'', ''dev''), (''Name'', ''web'')], instance_state = ''stopped''\<rparr>"

definition web_running :: ec2_instance where
  "web_running = \<lparr>instance_id = ''i-2'', instance_owner = account,
     instance_tags = [(''Name'', ''web'')], instance_state = ''running''\<rparr>"

definition db_running :: ec2_instance where
  "db_running = \<lparr>instance_id = ''i-3'', instance_owner = account,
     instance_tags = [(''Name'', ''db'')], instance_state = ''running''\<rparr>"

lemmas image_example_defs = account_def ami_current_def ami_tmp_def ami_tmp_old_def
  ami_foreign_def unavailable_deregister_def web_stopped_def web_running_def db_running_def

section \<open>Example answers of describe\_images\<close>

text \<open>
  The image named is found in the first two rounds and gone from the third; it is
  found for ever; the copy is unknown in the first two rounds and available from the
  third; it is never known; two images come back in every round.
\<close>

definition found_twice :: "nat \<Rightarrow> ami list" where
  "found_twice k = (if k < 2 then [ami_current] else [])"

definition always_found :: "nat \<Rightarrow> ami list" where
  "always_found k = [ami_current]"

definition available_third :: "nat \<Rightarrow> ami list" where
  "available_third k = (if k < 2 then [] else [ami_tmp])"

definition never_found :: "nat \<Rightarrow> ami list" where
  "never_found k = []"

definition two_images :: "nat \<Rightarrow> ami list" where
  "two_images k = [ami_tmp, ami_foreign]"

lemmas polling_example_defs = found_twice_def always_found_def available_third_def
  never_found_def two_images_def ami_current_def ami_tmp_def ami_foreign_def

section \<open>Example trees under /tmp\<close>







section \<open>Properties of the snapshot sweep\<close>


lemma test_protected_tags_map_of:
  "test_protected_tags ts m =
     (case map_of ts ''Name'' of None \<Rightarrow> None | Some v \<Rightarrow> Some (py_in m v))"
  by (induction ts m rule: test_protected_tags.induct) auto

lemma test_protected_True: "(test_protected s m = Some True) = protected s m"
  by (cases "tags s")
     (auto simp: test_protected_def protected_def name_tag_def test_protected_tags_map_of
           split: option.splits)



lemma process_step_retain:
  "protected s m \<or> \<not> owned me s \<Longrightarrow>
   process_list_snapshots me m del (s # rest) (d, r) =
   process_list_snapshots me m del rest (d, r @ [snapshot_id s])"
  by (auto simp: test_ownership_def owned_def test_protected_True)

lemma process_step_deleted:
  "owned me s \<Longrightarrow> \<not> protected s m \<Longrightarrow> del (snapshot_id s) = None \<Longrightarrow>
   process_list_snapshots me m del (s # rest) (d, r) =
   process_list_snapshots me m del rest (d @ [snapshot_id s], r)"
  by (auto simp: test_ownership_def owned_def test_protected_True)

lemma process_step_in_use:
  "owned me s \<Longrightarrow> \<not> protected s m \<Longrightarrow> del (snapshot_id s) = Some in_use_error \<Longrightarrow>
   process_list_snapshots me m del (s # rest) (d, r) =
   process_list_snapshots me m del rest (d, r @ [snapshot_id s])"
  by (auto simp: test_ownership_def owned_def test_protected_True in_use_error_def)

lemma process_step_fatal:
  "fatal me m del s \<Longrightarrow> \<exists>e. process_list_snapshots me m del (s # rest) (d, r) = Inl e"
  by (auto simp: fatal_def test_ownership_def owned_def test_protected_True in_use_error_def
           split: option.splits exn.splits)


lemma process_fatal:
  "\<exists>s \<in> set xs. fatal me m del s \<Longrightarrow>
   \<exists>e. process_list_snapshots me m del xs (d, r) = Inl e"
proof (induction xs arbitrary: d r)
  case Nil
  then show ?case by simp
next
  case (Cons s xs)
  show ?case
  proof (cases "fatal me m del s")
    case True
    then show ?thesis by (rule process_step_fatal)
  next
    case False
    with Cons.prems have later: "\<exists>s \<in> set xs. fatal me m del s" by auto
    consider (retain) "protected s m \<or> \<not> owned me s"
      | (gone) "owned me s" "\<not> protected s m" "del (snapshot_id s) = None"
      | (busy) "owned me s" "\<not> protected s m" "del (snapshot_id s) = Some in_use_error"
      using False by (auto simp: fatal_def)
    then show ?thesis
    proof cases
      case retain
      then show ?thesis using Cons.IH [OF later] by (simp add: process_step_retain del: process_list_snapshots.simps)
    next
      case gone
      then show ?thesis using Cons.IH [OF later] by (simp add: process_step_deleted del: process_list_snapshots.simps)
    next
      case busy
      then show ?thesis using Cons.IH [OF later] by (simp add: process_step_in_use del: process_list_snapshots.simps)
    qed
  qed
qed


lemma pages_fatal:
  "pages \<noteq> [] \<Longrightarrow> \<exists>s \<in> set (ls @ concat pages). fatal me m del s \<Longrightarrow>
   \<exists>e. delete_snapshots_pages me m del pages ls acc = Inl e"
proof (induction pages arbitrary: ls acc)
  case Nil
  then show ?case by simp
next
  case (Cons page later)
  show ?case
  proof (cases "\<exists>s \<in> set (ls @ page). fatal me m del s")
    case True
    obtain d r where acc: "acc = (d, r)" by (cases acc)
    from process_fatal [OF True] obtain e
      where "process_list_snapshots me m del (ls @ page) (d, r) = Inl e" by blast
    then show ?thesis by (simp add: acc)
  next
    case False
    with Cons.prems have there: "\<exists>s \<in> set ([] @ concat later). fatal me m del s"
      by auto
    then have ne: "later \<noteq> []" by auto
    show ?thesis
    proof (cases "process_list_snapshots me m del (ls @ page) acc")
      case (Inl e)
      then show ?thesis by simp
    next
      case (Inr acc')
      then show ?thesis using Cons.IH [OF ne there] by simp
    qed
  qed
qed

text \<open>
  A listing of one page only: the first answer carries no \<^verbatim>\<open>NextToken\<close>, the body of the
  \<^verbatim>\<open>while\<close> loop never runs, and no snapshot is looked at.
\<close>

lemma single_page_not_processed:
  "delete_snapshots me marker delete first_page [] = Inr ([], [])"
  by (simp add: delete_snapshots_def)


subsection \<open>The deletion rule\<close>




subsection \<open>Failed deletes\<close>

text \<open>
  C8. For a snapshot the sweep tries to delete (owned, not protected) whose delete
  request raises \<open>e\<close>: when \<open>e\<close> is the "in use" client error, the snapshot's id is
  appended to the retained list, the deleted list is unchanged and the loop goes on with
  the rest; when \<open>e\<close> is anything else, the loop raises (\<^verbatim>\<open>SystemExit\<close> for a client
  error, \<open>e\<close> itself otherwise) and with it the whole of \<^verbatim>\<open>delete_snapshots\<close>.
\<close>

theorem delete_failure_handling:
  assumes "owned me s" and "\<not> protected s marker" and "delete (snapshot_id s) = Some e"
  shows "(e = in_use_error \<longrightarrow>
            process_list_snapshots me marker delete (s # rest) (d, r) =
            process_list_snapshots me marker delete rest (d, r @ [snapshot_id s])) \<and>
         (e \<noteq> in_use_error \<longrightarrow>
            process_list_snapshots me marker delete (s # rest) (d, r) =
              Inl (case e of ClientError code \<Rightarrow> SystemExit | _ \<Rightarrow> e) \<and>
            (next_pages \<noteq> [] \<and> s \<in> set (first_page @ concat next_pages) \<longrightarrow>
               (\<exists>x. delete_snapshots me marker delete first_page next_pages = Inl x)))"
proof (intro conjI impI)
  assume "e = in_use_error"
  with assms show "process_list_snapshots me marker delete (s # rest) (d, r) =
      process_list_snapshots me marker delete rest (d, r @ [snapshot_id s])"
    by (simp add: process_step_in_use del: process_list_snapshots.simps)
next
  assume "e \<noteq> in_use_error"
  with assms show "process_list_snapshots me marker delete (s # rest) (d, r) =
      Inl (case e of ClientError code \<Rightarrow> SystemExit | _ \<Rightarrow> e)"
    by (auto simp: test_ownership_def owned_def test_protected_True in_use_error_def
             split: exn.splits)
next
  assume other: "e \<noteq> in_use_error"
    and "next_pages \<noteq> [] \<and> s \<in> set (first_page @ concat next_pages)"
  then have ne: "next_pages \<noteq> []" and mem: "s \<in> set (first_page @ concat next_pages)"
    by simp_all
  from assms other have "fatal me marker delete s"
    by (simp add: fatal_def)
  with mem have "\<exists>s \<in> set (first_page @ concat next_pages). fatal me marker delete s"
    by blast
  from pages_fatal [OF ne this]
  show "\<exists>x. delete_snapshots me marker delete first_page next_pages = Inl x"
    by (simp add: delete_snapshots_def)
qed

text \<open>
  Both branches on the examples: the attached \<^verbatim>\<open>snap-4\<close> is retained and \<^verbatim>\<open>snap-2\<close> after
  it is still deleted; a refused delete of \<^verbatim>\<open>snap-4\<close> aborts the sweep.
\<close>

theorem delete_failure_handling_witness:
  "process_list_snapshots account ''_BACKUP'' busy_delete [snap_busy, snap_nightly] ([], []) =
     Inr ([''snap-2''], [''snap-4'']) \<and>
   delete_snapshots account ''_BACKUP'' refused_delete [snap_backup]
     [[snap_busy, snap_nightly]] = Inl SystemExit"
  using delete_failure_handling [where s = snap_busy and me = account and marker = "''_BACKUP''"
      and delete = busy_delete and e = in_use_error and rest = "[snap_nightly]"
      and d = "[]" and r = "[]"]
    delete_failure_handling [where s = snap_busy and me = account and marker = "''_BACKUP''"
      and delete = refused_delete and e = "ClientError ''UnauthorizedOperation''"
      and first_page = "[snap_backup]" and next_pages = "[[snap_busy, snap_nightly]]"]
  by (simp add: sweep_example_defs owned_def protected_def name_tag_def in_use_error_def
      delete_snapshots_def test_protected_def test_ownership_def)

subsection \<open>Tags without a Name tag\<close>

text \<open>
  C10. For a snapshot whose tag list is not empty and holds no tag with key \<^verbatim>\<open>Name\<close>,
  \<^verbatim>\<open>test_protected\<close> returns Python's \<^verbatim>\<open>None\<close>, which is not \<^verbatim>\<open>True\<close>: the loop of
  \<^verbatim>\<open>delete_snapshots\<close> treats the snapshot as unprotected and, when it is owned by the
  account and its delete request goes through, appends it to the deleted list.
\<close>

theorem untitled_snapshot_unprotected:
  assumes "tags s \<noteq> []" and "''Name'' \<notin> fst ` set (tags s)"
  shows "test_protected s marker = None \<and>
         (owned me s \<and> delete (snapshot_id s) = None \<longrightarrow>
            process_list_snapshots me marker delete (s # rest) (d, r) =
            process_list_snapshots me marker delete rest (d @ [snapshot_id s], r))"
proof -
  from assms(2) have none: "map_of (tags s) ''Name'' = None"
    by (simp add: map_of_eq_None_iff)
  with assms(1) have tp: "test_protected s marker = None"
    by (simp add: test_protected_def test_protected_tags_map_of)
  from none have "\<not> protected s marker"
    by (simp add: protected_def name_tag_def)
  then show ?thesis
    using tp by (simp add: process_step_deleted del: process_list_snapshots.simps)
qed

text \<open>\<^verbatim>\<open>snap-5\<close> carries only the tag \<^verbatim>\<open>Env=dev\<close>: it is deleted.\<close>

theorem untitled_snapshot_unprotected_witness:
  "test_protected snap_env ''_BACKUP'' = None \<and>
   process_list_snapshots account ''_BACKUP'' busy_delete [snap_env] ([], []) =
     Inr ([''snap-5''], [])"
  using untitled_snapshot_unprotected [where s = snap_env and marker = "''_BACKUP''"
      and me = account and delete = busy_delete and rest = "[]" and d = "[]" and r = "[]"]
  by (simp add: sweep_example_defs owned_def test_protected_def test_ownership_def)

section \<open>Properties of the image sweep\<close>






section \<open>Properties of the locators\<close>

lemma find_filter: "find P (filter Q xs) = find (\<lambda>x. Q x \<and> P x) xs"
  by (induction xs) auto

lemma find_snoc:
  "find P (xs @ [x]) = (case find P xs of Some y \<Rightarrow> Some y | None \<Rightarrow> if P x then Some x else None)"
  by (induction xs) auto

lemma fab_find_ami_id_loop_find:
  "fab_find_ami_id_loop q xs =
     (case find (\<lambda>img. image_name img = q) xs of
        None \<Rightarrow> Inl (Abort (''Could not find AMI '' @ q))
      | Some img \<Rightarrow> Inr (image_id img))"
  by (induction xs) auto

lemma upd_find_ami_id_loop_find:
  "upd_find_ami_id_loop q xs =
     (case find (\<lambda>img. image_name img = q) xs of
        None \<Rightarrow> Inl SystemExit
      | Some img \<Rightarrow> Inr (image_id img))"
  by (induction xs) auto

lemma fab_select_running_find:
  "fab_select_running q xs =
     (case find (\<lambda>i. instance_state i = ''running'') xs of
        None \<Rightarrow> Inl (Abort (''Could not find a running instance named '' @ q))
      | Some i \<Rightarrow> Inr (instance_id i))"
  by (induction xs) auto

lemma find_fab_candidate_tags:
  "find P (fab_candidate_tags i ts q cands) =
     (case find P cands of
        Some x \<Rightarrow> Some x
      | None \<Rightarrow> if (''Name'', q) \<in> set ts \<and> P i then Some i else None)"
  by (induction i ts q cands rule: fab_candidate_tags.induct)
     (auto simp: find_snoc split: option.splits)

lemma find_fab_candidates:
  "find P (fab_candidates xs q cands) =
     (case find P cands of
        Some x \<Rightarrow> Some x
      | None \<Rightarrow> find (\<lambda>i. named q i \<and> P i) xs)"
  by (induction xs q cands rule: fab_candidates.induct)
     (auto simp: find_fab_candidate_tags named_def split: option.splits)

lemma upd_name_matches_iff: "upd_name_matches ts q = ((''Name'', q) \<in> set ts)"
  by (induction ts q rule: upd_name_matches.induct) auto

lemma upd_find_instance_id_loop_find:
  "upd_find_instance_id_loop q xs =
     (case find (named q) xs of None \<Rightarrow> Inl SystemExit | Some i \<Rightarrow> Inr (instance_id i))"
  by (induction xs) (auto simp: upd_name_matches_iff named_def)

text \<open>
  C3 (as amended). Each locator returns the id of the first resource the account owns, in
  the order AWS lists them, that matches, and fails when there is none, with \<^verbatim>\<open>abort\<close> in
  fabfile.py and \<^verbatim>\<open>SystemExit\<close> in update\_ami.py; it returns nothing else. An image
  matches when its name equals the query. An instance matches, for fabfile.py, when it
  has a Name tag equal to the query and its state is \<^verbatim>\<open>running\<close>; for update\_ami.py,
  when it has a Name tag equal to the query, whatever its state.
\<close>

theorem locators_first_match:
  "fab_find_ami_id owner images q =
     (case find (\<lambda>img. image_owner img = owner \<and> image_name img = q) images of
        None \<Rightarrow> Inl (Abort (''Could not find AMI '' @ q))
      | Some img \<Rightarrow> Inr (image_id img)) \<and>
   fab_find_instance_id owner instances q =
     (case find (\<lambda>i. instance_owner i = owner \<and> named q i \<and> instance_state i = ''running'')
             instances of
        None \<Rightarrow> Inl (Abort (''Could not find a running instance named '' @ q))
      | Some i \<Rightarrow> Inr (instance_id i)) \<and>
   upd_find_ami_id owner images q =
     (case find (\<lambda>img. image_owner img = owner \<and> image_name img = q) images of
        None \<Rightarrow> Inl SystemExit
      | Some img \<Rightarrow> Inr (image_id img)) \<and>
   upd_find_instance_id owner instances q =
     (case find (\<lambda>i. instance_owner i = owner \<and> named q i) instances of
        None \<Rightarrow> Inl SystemExit
      | Some i \<Rightarrow> Inr (instance_id i))"
  by (simp add: fab_find_ami_id_def fab_find_instance_id_def upd_find_instance_id_def
      upd_find_ami_id_def images_filter_def instances_filter_def fab_find_ami_id_loop_find
      upd_find_ami_id_loop_find fab_select_running_find find_fab_candidates
      upd_find_instance_id_loop_find find_filter)

text \<open>
  Of a stopped and a running instance named \<^verbatim>\<open>web\<close>, fabfile.py selects the running one
  and aborts when only the stopped one is there; update\_ami.py selects the first.
\<close>

theorem locators_first_match_witness:
  "fab_find_ami_id account [ami_tmp, ami_foreign, ami_current] ''web_CURRENT'' = Inr ''ami-1'' \<and>
   fab_find_instance_id account [db_running, web_stopped, web_running] ''web'' = Inr ''i-2'' \<and>
   fab_find_instance_id account [db_running, web_stopped] ''web'' =
     Inl (Abort ''Could not find a running instance named web'') \<and>
   upd_find_instance_id account [db_running] ''web'' = Inl SystemExit"
  using locators_first_match [where owner = account and q = "''web_CURRENT''"
      and images = "[ami_tmp, ami_foreign, ami_current]" and instances = "[]"]
    locators_first_match [where owner = account and q = "''web''" and images = "[]"
      and instances = "[db_running, web_stopped, web_running]"]
    locators_first_match [where owner = account and q = "''web''" and images = "[]"
      and instances = "[db_running, web_stopped]"]
    locators_first_match [where owner = account and q = "''web''" and images = "[]"
      and instances = "[db_running]"]
  by (simp add: image_example_defs named_def)

text \<open>
  C3 as stated fails for update\_ami.py: its locator returns the stopped instance.
\<close>

theorem stopped_instance_selected:
  "instance_state web_stopped \<noteq> ''running'' \<and>
   upd_find_instance_id account [web_stopped, web_running] ''web'' = Inr (instance_id web_stopped)"
  by (simp add: image_example_defs upd_find_instance_id_def instances_filter_def)

section \<open>Properties of the polling loops\<close>

lemma ceiling_bounds:
  fixes T i :: int
  assumes "0 < i" and "0 < T"
  shows "0 < \<lceil>real_of_int T / real_of_int i\<rceil>"
    and "(\<lceil>real_of_int T / real_of_int i\<rceil> - 1) * i < T"
    and "T \<le> \<lceil>real_of_int T / real_of_int i\<rceil> * i"
proof -
  let ?c = "\<lceil>real_of_int T / real_of_int i\<rceil>"
  from assms have pos: "0 < real_of_int i" and "0 < real_of_int T / real_of_int i" by simp_all
  then show "0 < ?c" by simp
  from ceiling_divide_lower [OF pos, of "real_of_int T"]
  have "real_of_int ((?c - 1) * i) < real_of_int T" by simp
  then show "(?c - 1) * i < T" by (simp only: of_int_less_iff)
  from ceiling_divide_upper [OF pos, of "real_of_int T"]
  have "real_of_int T \<le> real_of_int (?c * i)" by simp
  then show "T \<le> ?c * i" by (simp only: of_int_le_iff)
qed


lemma wait_copy_round_many:
  "2 \<le> length images \<Longrightarrow> wait_copy_round images i timer slept = Continue timer slept"
  by (cases images) (auto simp: wait_copy_round_def)

lemma wait_copy_loop_many_diverges:
  assumes "wait_copy_loop d i T k timer slept = Some y"
  shows "\<not> ((\<forall>k. 2 \<le> length (d k)) \<and> timer < T)"
proof (rule wait_copy_loop.raw_induct
    [where P = "\<lambda>d i T k timer slept y. \<not> ((\<forall>k. 2 \<le> length (d k)) \<and> timer < T)",
     OF _ assms])
  fix loop and d :: "nat \<Rightarrow> ami list" and i T :: int and k :: nat and timer :: int
    and slept :: "int list" and y :: "(exn + int) \<times> int list"
  assume IH: "\<And>d i T k timer slept y. loop d i T k timer slept = Some y \<Longrightarrow>
      \<not> ((\<forall>k. 2 \<le> length (d k)) \<and> timer < T)"
    and step: "(case wait_copy_round (d k) i timer slept of
        Return v \<Rightarrow> Some (Inr v, slept)
      | Raise e \<Rightarrow> Some (Inl e, slept)
      | Continue timer' slept' \<Rightarrow>
          if T \<le> timer' then Some (Inl (Abort ''wait_copy() timed out.''), slept')
          else loop d i T (k + 1) timer' slept') = Some y"
  show "\<not> ((\<forall>k. 2 \<le> length (d k)) \<and> timer < T)"
  proof
    assume inv: "(\<forall>k. 2 \<le> length (d k)) \<and> timer < T"
    then have "wait_copy_round (d k) i timer slept = Continue timer slept"
      by (simp add: wait_copy_round_many)
    with step inv have "loop d i T (k + 1) timer slept = Some y" by simp
    from IH [OF this] inv show False by simp
  qed
qed

lemma wait_copy_loop_zero_diverges:
  assumes "wait_copy_loop d i T k timer slept = Some y"
  shows "\<not> (i = 0 \<and> (\<forall>k. d k = []) \<and> timer < T)"
proof (rule wait_copy_loop.raw_induct
    [where P = "\<lambda>d i T k timer slept y. \<not> (i = 0 \<and> (\<forall>k. d k = []) \<and> timer < T)",
     OF _ assms])
  fix loop and d :: "nat \<Rightarrow> ami list" and i T :: int and k :: nat and timer :: int
    and slept :: "int list" and y :: "(exn + int) \<times> int list"
  assume IH: "\<And>d i T k timer slept y. loop d i T k timer slept = Some y \<Longrightarrow>
      \<not> (i = 0 \<and> (\<forall>k. d k = []) \<and> timer < T)"
    and step: "(case wait_copy_round (d k) i timer slept of
        Return v \<Rightarrow> Some (Inr v, slept)
      | Raise e \<Rightarrow> Some (Inl e, slept)
      | Continue timer' slept' \<Rightarrow>
          if T \<le> timer' then Some (Inl (Abort ''wait_copy() timed out.''), slept')
          else loop d i T (k + 1) timer' slept') = Some y"
  show "\<not> (i = 0 \<and> (\<forall>k. d k = []) \<and> timer < T)"
  proof
    assume inv: "i = 0 \<and> (\<forall>k. d k = []) \<and> timer < T"
    then have "wait_copy_round (d k) i timer slept = Continue timer (slept @ [0])"
      by (simp add: wait_copy_round_def)
    with step inv have "loop d i T (k + 1) timer (slept @ [0]) = Some y" by simp
    from IH [OF this] inv show False by simp
  qed
qed

lemma wait_copy_loop_terminates:
  assumes "0 < i" and "\<forall>k. length (d k) \<le> 1"
  shows "\<exists>sl. wait_copy_loop d i T k timer slept = Some (Inr 0, sl) \<or>
              wait_copy_loop d i T k timer slept = Some (Inl (Abort ''wait_copy() timed out.''), sl)"
proof (induction "nat (T - timer)" arbitrary: k timer slept rule: less_induct)
  case less
  from assms(2) have len: "length (d k) = 0 \<or> length (d k) = 1"
    by (metis le_neq_implies_less less_one)
  have "wait_copy_round (d k) i timer slept = Return 0 \<or>
      wait_copy_round (d k) i timer slept = Continue (timer + i) (slept @ [i])"
    using len assms(1) by (cases "d k") (simp_all add: wait_copy_round_def)
  then consider (ret) "wait_copy_round (d k) i timer slept = Return 0"
    | (cont) "wait_copy_round (d k) i timer slept = Continue (timer + i) (slept @ [i])"
    by blast
  then show ?case
  proof cases
    case ret
    then have "wait_copy_loop d i T k timer slept = Some (Inr 0, slept)"
      by (subst wait_copy_loop.simps) simp
    then show ?thesis by blast
  next
    case cont
    show ?thesis
    proof (cases "T \<le> timer + i")
      case True
      with cont have "wait_copy_loop d i T k timer slept =
          Some (Inl (Abort ''wait_copy() timed out.''), slept @ [i])"
        by (subst wait_copy_loop.simps) simp
      then show ?thesis by blast
    next
      case False
      with assms(1) have "nat (T - (timer + i)) < nat (T - timer)" by simp
      from less [OF this, of "k + 1" "slept @ [i]"] obtain sl where
        "wait_copy_loop d i T (k + 1) (timer + i) (slept @ [i]) = Some (Inr 0, sl) \<or>
         wait_copy_loop d i T (k + 1) (timer + i) (slept @ [i]) =
           Some (Inl (Abort ''wait_copy() timed out.''), sl)" by blast
      moreover have "wait_copy_loop d i T k timer slept =
          wait_copy_loop d i T (k + 1) (timer + i) (slept @ [i])"
        using cont False by (subst wait_copy_loop.simps) simp
      ultimately show ?thesis by auto
    qed
  qed
qed

lemma wait_copy_loop_timeout:
  assumes "0 < i"
  shows "0 < m \<Longrightarrow> \<forall>j < m. d (k + j) = [] \<Longrightarrow> timer + (int m - 1) * i < T \<Longrightarrow>
     T \<le> timer + int m * i \<Longrightarrow>
     wait_copy_loop d i T k timer slept =
       Some (Inl (Abort ''wait_copy() timed out.''), slept @ replicate m i)"
proof (induction m arbitrary: k timer slept)
  case 0
  then show ?case by simp
next
  case (Suc m)
  from Suc.prems(2) have "d k = []" by (metis add_0_right zero_less_Suc)
  with assms have round: "wait_copy_round (d k) i timer slept = Continue (timer + i) (slept @ [i])"
    by (simp add: wait_copy_round_def)
  show ?case
  proof (cases "m = 0")
    case True
    with Suc.prems round show ?thesis
      by (subst wait_copy_loop.simps) simp
  next
    case False
    then have m: "0 < m" by simp
    from Suc.prems(2) have later: "\<forall>j < m. d ((k + 1) + j) = []"
      by (metis Suc_less_eq add_Suc_right add_Suc_shift Suc_eq_plus1)
    have below: "(timer + i) + (int m - 1) * i < T"
      using Suc.prems(3) by (simp add: algebra_simps)
    have above: "T \<le> (timer + i) + int m * i"
      using Suc.prems(4) by (simp add: algebra_simps)
    have "timer + i \<le> (timer + i) + (int m - 1) * i"
      using m assms by simp
    with below have go_on: "\<not> T \<le> timer + i" by simp
    have "wait_copy_loop d i T k timer slept =
        wait_copy_loop d i T (k + 1) (timer + i) (slept @ [i])"
      using round go_on by (subst wait_copy_loop.simps) simp
    also have "\<dots> = Some (Inl (Abort ''wait_copy() timed out.''), (slept @ [i]) @ replicate m i)"
      by (rule Suc.IH [OF m later below above])
    finally show ?thesis by (simp add: replicate_app_Cons_same)
  qed
qed

subsection \<open>Waiting for an image to go\<close>




subsection \<open>Waiting for a copy\<close>

text \<open>
  C6 (as amended). \<^verbatim>\<open>wait_copy\<close> with polling interval \<open>i\<close> and timeout \<open>T\<close>: when the
  answers are not found, not found, available and \<open>0 \<le> i\<close>, \<open>2 * i < T\<close>, it returns 0
  after exactly two sleeps of \<open>i\<close> seconds; when \<open>0 < i\<close>, \<open>0 < T\<close> and the image is not
  found in each of the first \<open>\<lceil>T / i\<rceil>\<close> rounds, it aborts with the message
  \<^verbatim>\<open>wait_copy() timed out.\<close> after exactly \<open>\<lceil>T / i\<rceil>\<close> sleeps of \<open>i\<close> seconds.
\<close>

theorem wait_copy_polling:
  "(describe 0 = [] \<and> describe 1 = [] \<and> describe 2 = [img] \<and>
    image_state img = ''available'' \<and> 0 \<le> i \<and> 2 * i < T \<longrightarrow>
      wait_copy describe i T = Some (Inr 0, [i, i])) \<and>
   (0 < i \<and> 0 < T \<and> (\<forall>k < nat \<lceil>real_of_int T / real_of_int i\<rceil>. describe k = []) \<longrightarrow>
      wait_copy describe i T =
        Some (Inl (Abort ''wait_copy() timed out.''),
              replicate (nat \<lceil>real_of_int T / real_of_int i\<rceil>) i))"
proof (intro conjI impI)
  assume a: "describe 0 = [] \<and> describe 1 = [] \<and> describe 2 = [img] \<and>
    image_state img = ''available'' \<and> 0 \<le> i \<and> 2 * i < T"
  then have lt: "\<not> T \<le> i" "\<not> T \<le> i + i" by simp_all
  have "wait_copy describe i T = wait_copy_loop describe i T 1 i [i]"
    unfolding wait_copy_def using a lt
    by (subst wait_copy_loop.simps) (simp add: wait_copy_round_def)
  also have "\<dots> = wait_copy_loop describe i T 2 (i + i) [i, i]"
    using a lt by (subst wait_copy_loop.simps) (simp add: wait_copy_round_def numeral_2_eq_2)
  also have "\<dots> = Some (Inr 0, [i, i])"
    using a by (subst wait_copy_loop.simps) (simp add: wait_copy_round_def)
  finally show "wait_copy describe i T = Some (Inr 0, [i, i])" .
next
  let ?m = "nat \<lceil>real_of_int T / real_of_int i\<rceil>"
  assume a: "0 < i \<and> 0 < T \<and> (\<forall>k < ?m. describe k = [])"
  then have i: "0 < i" and T: "0 < T" and absent: "\<forall>j < ?m. describe (0 + j) = []"
    by simp_all
  from ceiling_bounds [OF i T] have m: "0 < ?m"
    and below: "0 + (int ?m - 1) * i < T" and above: "T \<le> 0 + int ?m * i"
    by simp_all
  from wait_copy_loop_timeout [OF i m absent below above, of "[]"]
  show "wait_copy describe i T =
      Some (Inl (Abort ''wait_copy() timed out.''), replicate ?m i)"
    by (simp add: wait_copy_def)
qed

text \<open>
  Success after two sleeps of 8 seconds under the default timeout; with the unit test's
  interval 1 and timeout 3, an image never found times out after three sleeps.
\<close>

theorem wait_copy_polling_witness:
  "wait_copy available_third 8 1200 = Some (Inr 0, [8, 8]) \<and>
   wait_copy never_found 1 3 = Some (Inl (Abort ''wait_copy() timed out.''), [1, 1, 1])"
  using wait_copy_polling [of available_third ami_tmp 8 1200]
    wait_copy_polling [of never_found ami_tmp 1 3]
  by (simp add: available_third_def never_found_def ami_tmp_def numeral_3_eq_3)

text \<open>
  C6 as stated fails when the timeout is at most two intervals: with interval 8 and
  timeout 10 the answers not found, not found, available end in the timeout after the
  second sleep.
\<close>

theorem wait_copy_short_timeout:
  "wait_copy available_third 8 10 = Some (Inl (Abort ''wait_copy() timed out.''), [8, 8])"
  by (simp add: wait_copy_def wait_copy_loop.simps wait_copy_round_def available_third_def)

subsection \<open>Termination of wait\_copy\<close>

text \<open>
  C9 (as amended). When the polling interval is positive and every answer holds at most
  one image, \<^verbatim>\<open>wait_copy\<close> terminates: it returns 0 or aborts with the timeout message.
  A round whose answer holds two images or more returns nothing, sleeps not and leaves
  the timer as it is; when every answer is such and the timeout is positive, the loop
  never ends.
\<close>

theorem wait_copy_termination:
  "(0 < i \<and> (\<forall>k. length (describe k) \<le> 1) \<longrightarrow>
      (\<exists>slept. wait_copy describe i T = Some (Inr 0, slept) \<or>
               wait_copy describe i T = Some (Inl (Abort ''wait_copy() timed out.''), slept))) \<and>
   (\<forall>k timer slept. 2 \<le> length (describe k) \<longrightarrow>
      wait_copy_round (describe k) i timer slept = Continue timer slept) \<and>
   (0 < T \<and> (\<forall>k. 2 \<le> length (describe k)) \<longrightarrow> wait_copy describe i T = None)"
proof (intro conjI impI allI)
  assume "0 < i \<and> (\<forall>k. length (describe k) \<le> 1)"
  then have "0 < i" and "\<forall>k. length (describe k) \<le> 1" by simp_all
  from wait_copy_loop_terminates [OF this, of T 0 0 "[]"]
  show "\<exists>slept. wait_copy describe i T = Some (Inr 0, slept) \<or>
      wait_copy describe i T = Some (Inl (Abort ''wait_copy() timed out.''), slept)"
    by (simp add: wait_copy_def)
next
  fix k timer slept
  assume "2 \<le> length (describe k)"
  then show "wait_copy_round (describe k) i timer slept = Continue timer slept"
    by (rule wait_copy_round_many)
next
  assume inv: "0 < T \<and> (\<forall>k. 2 \<le> length (describe k))"
  show "wait_copy describe i T = None"
  proof (cases "wait_copy describe i T")
    case None
    then show ?thesis .
  next
    case (Some y)
    then have "wait_copy_loop describe i T 0 0 [] = Some y" by (simp add: wait_copy_def)
    from wait_copy_loop_many_diverges [OF this] inv show ?thesis by simp
  qed
qed

text \<open>
  A copy available in the third round ends the loop; two images in every round keep it
  running for ever.
\<close>

theorem wait_copy_termination_witness:
  "wait_copy available_third 8 1200 = Some (Inr 0, [8, 8]) \<and>
   wait_copy_round (two_images 0) 8 0 [] = Continue 0 [] \<and>
   wait_copy two_images 8 1200 = None"
proof -
  have ends: "\<exists>slept. wait_copy available_third 8 1200 = Some (Inr 0, slept) \<or>
      wait_copy available_third 8 1200 = Some (Inl (Abort ''wait_copy() timed out.''), slept)"
    using wait_copy_termination [of 8 available_third 1200]
    by (simp add: available_third_def)
  have result: "wait_copy available_third 8 1200 = Some (Inr 0, [8, 8])"
    by (simp add: wait_copy_def wait_copy_loop.simps wait_copy_round_def
        available_third_def ami_tmp_def)
  have runs: "wait_copy_round (two_images 0) 8 0 [] = Continue 0 [] \<and>
      wait_copy two_images 8 1200 = None"
    using wait_copy_termination [of 8 two_images 1200] by (simp add: two_images_def)
  from ends result runs show ?thesis by simp
qed

text \<open>
  C9 as stated fails for a polling interval of 0: every answer is empty, so none holds
  more than one image, and the loop never ends, because the timer stays at 0.
\<close>

theorem wait_copy_zero_interval:
  "wait_copy never_found 0 1200 = None"
proof (cases "wait_copy never_found 0 1200")
  case None
  then show ?thesis .
next
  case (Some y)
  then have "wait_copy_loop never_found 0 1200 0 0 [] = Some y" by (simp add: wait_copy_def)
  from wait_copy_loop_zero_diverges [OF this] show ?thesis by (simp add: never_found_def)
qed

section \<open>Properties of the remote steps of update\_ami.py\<close>

lemma fsfreeze_loop_runs:
  "\<forall>c. exec_command h c \<noteq> ExecRaises \<Longrightarrow>
   fsfreeze_loop h action filesystems trace =
     (None, trace @ map (\<lambda>fs. Ran (''sudo fsfreeze --'' @ action @ '' '' @ fs)) filesystems)"
proof (induction filesystems arbitrary: trace)
  case Nil
  then show ?case by simp
next
  case (Cons fs rest)
  from Cons.prems obtain out err
    where "exec_command h (''sudo fsfreeze --'' @ action @ '' '' @ fs) = ExecDone out err"
    by (metis exec_result.exhaust)
  with Cons.IH [OF Cons.prems] show ?case by (simp add: Let_def)
qed

text \<open>
  C2 says that a failed create-image step is logged and that the workflow goes on to
  unfreeze the filesystems and restart the service. The code does not: on a host where
  every connection and every command succeeds, when \<^verbatim>\<open>create_image\<close> raises whatever
  exception \<open>e\<close>, \<^verbatim>\<open>main\<close> stops the service, freezes the filesystems, logs the failure
  and ends with \<^verbatim>\<open>UnboundLocalError\<close>; no unfreeze and no start command is sent.
\<close>

theorem failed_create_image_skips_cleanup:
  assumes "\<forall>action. connect h action" and "\<forall>c. exec_command h c \<noteq> ExecRaises"
  shows "main_remote_steps h filesystems (Inl e) =
         (Some UnboundLocalError,
          [Ran ''sudo service postgresql stop''] @
          map (\<lambda>fs. Ran (''sudo fsfreeze --freeze '' @ fs)) filesystems @
          [Called ''create_image'', Logged ''Failed to create AMI.''])"
proof -
  from assms(2) obtain out err
    where stop: "exec_command h ''sudo service postgresql stop'' = ExecDone out err"
    by (metis exec_result.exhaust)
  have "start_or_stop_service h ''stop'' ''postgresql'' [] =
      (None, [Ran ''sudo service postgresql stop''])"
    using assms(1) stop by (simp add: start_or_stop_service_def)
  moreover have "freeze_or_unfreeze_filesystems h filesystems ''freeze''
      [Ran ''sudo service postgresql stop''] =
      (None, [Ran ''sudo service postgresql stop''] @
             map (\<lambda>fs. Ran (''sudo fsfreeze --freeze '' @ fs)) filesystems)"
    using assms(1) fsfreeze_loop_runs [OF assms(2), of "''freeze''" filesystems]
    by (simp add: freeze_or_unfreeze_filesystems_def)
  ultimately show ?thesis
    by (simp add: main_remote_steps_def upd_create_ami_def)
qed

text \<open>The run on one filesystem, \<^verbatim>\<open>/var/opt\<close>, with a client error from \<^verbatim>\<open>create_image\<close>.\<close>

theorem failed_create_image_skips_cleanup_witness:
  "main_remote_steps obedient_host [''/var/opt''] (Inl (ClientError ''InvalidAMIName.Duplicate'')) =
     (Some UnboundLocalError,
      [Ran ''sudo service postgresql stop'', Ran ''sudo fsfreeze --freeze /var/opt'',
       Called ''create_image'', Logged ''Failed to create AMI.''])"
  using failed_create_image_skips_cleanup [of obedient_host "[''/var/opt'']"
      "ClientError ''InvalidAMIName.Duplicate''"]
  by (simp add: obedient_host_def)

section \<open>Properties of the continuity files\<close>











lemma file_names_drop: "set (file_names (drop n tree)) \<subseteq> set (file_names tree)"
  by (auto simp: file_names_def dest: in_set_dropD)












end
